theory Spec2Isabelle
  imports Main "HOL-Library.Word" "HOL-Library.Sublist"
begin

section \<open>Bytes and the wire format\<close>

text \<open>
  A Node \<open>Buffer\<close> is a list of bytes. The frame header is one code byte followed by an
  unsigned 32-bit big-endian length that counts itself.
\<close>

type_synonym byte = "8 word"

text \<open>\<open>readUInt32BE\<close> on four bytes: the unsigned big-endian value.\<close>

definition uint32be :: "byte list \<Rightarrow> nat" where
  "uint32be bs = foldl (\<lambda>acc b. acc * 256 + unat b) 0 bs"

text \<open>\<open>buf.readUInt32BE(off)\<close>; every call in the sources is guarded so that the four
  bytes exist.\<close>

definition readUInt32BE :: "byte list \<Rightarrow> nat \<Rightarrow> nat" where
  "readUInt32BE buf off = uint32be (take 4 (drop off buf))"

text \<open>The four bytes \<open>writeUInt32BE\<close> stores for a value from 0 to \<open>0xffffffff\<close>.\<close>

definition uint32be_bytes :: "int \<Rightarrow> byte list" where
  "uint32be_bytes n =
     [of_int (n div 16777216), of_int (n div 65536), of_int (n div 256), of_int n]"

text \<open>
  Modelled from the spec: the module \<open>message-formats\<close> that both sources load as
  \<open>code\<close> is not among them. The decoders only compare a code byte against its
  constants, so the constants are a parameter of every function; \<open>pg_codes\<close> gives the
  letters of the PostgreSQL wire protocol (\<open>H\<close> for CopyOutResponse, as the error text in
  copy-to.js says) for the concrete runs.
\<close>

record message_formats =
  ErrorResponse :: byte
  CopyOutResponse :: byte
  CopyBothResponse :: byte
  CopyDone :: byte
  CopyData :: byte
  ParameterStatus :: byte
  NoticeResponse :: byte
  NotificationResponse :: byte

definition pg_codes :: message_formats where
  "pg_codes = \<lparr> ErrorResponse = 0x45, CopyOutResponse = 0x48, CopyBothResponse = 0x57,
     CopyDone = 0x63, CopyData = 0x64, ParameterStatus = 0x53, NoticeResponse = 0x4e,
     NotificationResponse = 0x41 \<rparr>"

text \<open>One frame on the wire: code, length (payload length + 4), payload.\<close>

definition frame :: "byte \<Rightarrow> byte list \<Rightarrow> byte list" where
  "frame c payload = c # uint32be_bytes (int (length payload) + 4) @ payload"

section \<open>copy-to.js\<close>

text \<open>
  The two errors \<open>_transform\<close> emits: \<open>Unexpected CopyOutResponse message (H)\<close> and
  \<open>Unexpected PostgreSQL message\<close> followed by the character of the code.
\<close>

datatype to_error = UnexpectedCopyOutResponse | UnexpectedMessage byte

text \<open>
  The fields of the stream (\<open>_gotCopyOutResponse\<close>, \<open>rowCount\<close>, \<open>_remainder\<close>, which
  is a Buffer or a falsy value) and what it did to its surroundings: the chunks given to
  \<open>this.push\<close>, whether \<open>push(null)\<close> ended the readable side, the \<open>error\<close> events
  emitted (emitting does not leave the loop), whether the connection stream is still
  piped into the transform, the resumptions scheduled by \<open>_detach\<close> and the calls of the
  transform callback.
\<close>

record copy_to =
  gotCopyOutResponse :: bool
  rowCount :: nat
  remainder :: "byte list option"
  t_pushed :: "byte list list"
  t_ended :: bool
  t_errors :: "to_error list"
  t_piped :: bool
  t_resumes :: nat
  t_callbacks :: nat

text \<open>The stream after the constructor and \<open>submit\<close>.\<close>

definition copy_to_init :: copy_to where
  "copy_to_init = \<lparr> gotCopyOutResponse = False, rowCount = 0, remainder = None,
     t_pushed = [], t_ended = False, t_errors = [], t_piped = True, t_resumes = 0,
     t_callbacks = 0 \<rparr>"

text \<open>\<open>_detach\<close> of copy-to.js: unpipe, and resume the connection stream on the next tick.
  Nothing is handed to anybody.\<close>

definition to_detach :: "copy_to \<Rightarrow> copy_to" where
  "to_detach s = s\<lparr>t_piped := False, t_resumes := t_resumes s + 1\<rparr>"

text \<open>
  \<open>pushBufferIfneeded\<close>. The local \<open>buffer\<close> is allocated with the length of the chunk
  and rows are copied to it at \<open>buffer_offset\<close>; the rows are disjoint slices of the chunk,
  so they always fit, and the model keeps the bytes copied so far, \<open>buf\<close>, whose length
  is \<open>buffer_offset\<close>. Resetting \<open>buffer_offset\<close> is returning the empty list.
\<close>

definition pushBufferIfneeded :: "bool \<Rightarrow> byte list \<Rightarrow> copy_to \<Rightarrow> copy_to \<times> byte list" where
  "pushBufferIfneeded needPush buf s =
     (if needPush \<and> length buf > 0 then (s\<lparr>t_pushed := t_pushed s @ [buf]\<rparr>, [])
      else (s, buf))"

text \<open>What the \<open>switch\<close> on the message code leaves: the loop goes on with a state and
  \<open>needPush\<close>, or \<open>_transform\<close> returns (ErrorResponse and CopyDone).\<close>

datatype to_switch = Proceed copy_to bool | Finish

definition on_code :: "message_formats \<Rightarrow> byte \<Rightarrow> bool \<Rightarrow> copy_to \<Rightarrow> to_switch" where
  "on_code fmt messageCode needPush s =
     (if messageCode = CopyOutResponse fmt then
        (if \<not> gotCopyOutResponse s then Proceed (s\<lparr>gotCopyOutResponse := True\<rparr>) needPush
         else Proceed (s\<lparr>t_errors := t_errors s @ [UnexpectedCopyOutResponse]\<rparr>) needPush)
      else if messageCode = CopyData fmt then Proceed s True
      else if messageCode = ParameterStatus fmt \<or> messageCode = NoticeResponse fmt
              \<or> messageCode = NotificationResponse fmt then Proceed s needPush
      else if messageCode = ErrorResponse fmt \<or> messageCode = CopyDone fmt then Finish
      else Proceed (s\<lparr>t_errors := t_errors s @ [UnexpectedMessage messageCode]\<rparr>) needPush)"

text \<open>How the \<open>while\<close> loop of \<open>_transform\<close> is left: by the \<open>return cb()\<close> of the
  ErrorResponse/CopyDone case, or by falling out of it (the condition fails, or the
  \<open>break\<close> of an incomplete message) with the locals \<open>offset\<close>, \<open>needPush\<close> and the
  copied bytes.\<close>

datatype to_exit = Returned copy_to | Fell nat bool "byte list" copy_to

function transform_loop ::
  "message_formats \<Rightarrow> byte list \<Rightarrow> nat \<Rightarrow> bool \<Rightarrow> byte list \<Rightarrow> copy_to \<Rightarrow> to_exit" where
  "transform_loop fmt chunk offset needPush buf s =
     (if offset + 5 \<le> length chunk then
        (case on_code fmt (chunk ! offset) needPush s of
           Finish \<Rightarrow>
             (let (s1, buf1) = pushBufferIfneeded needPush buf s;
                  s2 = to_detach s1;
                  s3 = s2\<lparr>t_ended := True\<rparr>
              in Returned (s3\<lparr>t_callbacks := t_callbacks s3 + 1\<rparr>))
         | Proceed s1 needPush1 \<Rightarrow>
             (let len = readUInt32BE chunk (offset + 1) in
              if offset + 1 + len \<le> length chunk then
                (let offset1 = offset + 5;
                     row = take (len - 4) (drop offset1 chunk);
                     s2 = (if needPush1 then s1\<lparr>rowCount := rowCount s1 + 1\<rparr> else s1);
                     buf1 = (if needPush1 then buf @ row else buf)
                 in transform_loop fmt chunk (offset1 + len - 4) needPush1 buf1 s2)
              else Fell offset needPush1 buf s1))
      else Fell offset needPush buf s)"
  by pat_completeness auto
termination
  by (relation "measure (\<lambda>(fmt, chunk, offset, needPush, buf, s). length chunk - offset)") auto

declare transform_loop.simps [simp del]

text \<open>\<open>_transform(chunk, enc, cb)\<close>.\<close>

definition transform :: "message_formats \<Rightarrow> byte list \<Rightarrow> copy_to \<Rightarrow> copy_to" where
  "transform fmt chunk0 s =
     (let chunk = (case remainder s of Some r \<Rightarrow> r @ chunk0 | None \<Rightarrow> chunk0) in
      case transform_loop fmt chunk 0 False [] s of
        Returned s' \<Rightarrow> s'
      | Fell offset needPush buf s1 \<Rightarrow>
          (let (s2, buf1) = pushBufferIfneeded needPush buf s1;
               s3 = (if length chunk - offset \<noteq> 0
                     then s2\<lparr>remainder := Some (drop offset chunk)\<rparr>
                     else s2\<lparr>remainder := None\<rparr>)
           in s3\<lparr>t_callbacks := t_callbacks s3 + 1\<rparr>))"

section \<open>copy-both.js\<close>

subsection \<open>The byte accumulator\<close>

text \<open>
  Modelled from the spec: the class \<open>BufferList\<close> of the package \<open>obuf\<close> is not among
  the sources. The spec describes it as a resizable buffer with peek, consume-N and
  has-N-bytes queries whose bytes are consumed monotonically: a list of bytes, read from
  the front. \<open>push\<close> is \<open>@\<close>, \<open>size\<close> is \<open>length\<close>, \<open>take n\<close> returns \<open>take n\<close> and
  leaves \<open>drop n\<close>.
\<close>

definition has :: "nat \<Rightarrow> byte list \<Rightarrow> bool" where
  "has n b = (n \<le> length b)"

definition peekUInt8 :: "byte list \<Rightarrow> byte" where
  "peekUInt8 b = hd b"

subsection \<open>The stream and its surroundings\<close>

datatype pg_state = PG_CODE | PG_LENGTH | PG_MESSAGE

text \<open>The exceptions of the runtime that the modelled code can raise: a method called on
  a buffer that \<open>_cleanup\<close> has set to \<open>null\<close>, and \<open>writeUInt32BE\<close> with a value that
  does not fit 32 bits.\<close>

datatype js_error = TypeError | RangeError

text \<open>A listener registered with \<open>once('drain', ...)\<close>: \<open>this.flush.bind(this, callback)\<close>
  or the callback itself. Callbacks are opaque; a number names each.\<close>

datatype drain_listener = FlushThen nat | Call nat

text \<open>
  The fields of the duplex stream, by their names in the source without the underscore,
  and the objects around it.

  \<^item> Readable side: \<open>state\<close>, \<open>buffer\<close>, \<open>unreadMessageContentLength\<close> (a JavaScript
    number: the declared length minus 4 may be negative), \<open>copyDataChunks\<close>, \<open>code\<close>
    (\<open>None\<close> is \<open>undefined\<close>), \<open>rowMode\<close>. \<open>released\<close> says that \<open>_cleanup\<close> has set
    the buffers to \<open>null\<close>.
  \<^item> Writable side: \<open>gotCopyInResponse\<close>, \<open>chunks\<close> (the encoding stored with each
    chunk is never read), \<open>cb\<close>, \<open>cb_flush\<close>, and the cork counter of the Writable base.
  \<^item> The consumer of the readable side: the units given to \<open>this.push\<close>, whether
    \<open>push(null)\<close> was called, and \<open>pushOk n\<close>, the value \<open>push\<close> returns when \<open>n\<close>
    units were pushed before.
  \<^item> The connection stream: whether \<open>_onReadableEvent\<close> is registered (\<open>listening\<close>),
    whether the connection's own data handler is registered (\<open>dataHandler\<close>), what that
    handler received since \<open>_attach\<close> (\<open>handed\<close>), the resumptions scheduled, the buffers
    given to \<open>write\<close>, \<open>writeOk n\<close>, the value \<open>write\<close> returns when \<open>n\<close> buffers were
    written before, and the \<open>once('drain')\<close> listeners.
  \<^item> \<open>called\<close>: the callbacks invoked, in order.
  \<^item> \<open>consumed\<close> is a history variable, not a field of the source: every byte the
    decoder has read off \<open>buffer\<close> (\<open>readUInt8\<close>, \<open>readUInt32BE\<close>, \<open>take\<close>), in order.
\<close>

record copy_both =
  state :: pg_state
  buffer :: "byte list"
  unreadMessageContentLength :: int
  copyDataChunks :: "byte list"
  code :: "byte option"
  rowMode :: bool
  released :: bool
  gotCopyInResponse :: bool
  chunks :: "byte list list"
  cb :: "nat option"
  cb_flush :: "nat option"
  corked :: nat
  pushed :: "byte list list"
  ended :: bool
  pushOk :: "nat \<Rightarrow> bool"
  listening :: bool
  dataHandler :: bool
  handed :: "byte list list"
  resumes :: nat
  written :: "byte list list"
  writeOk :: "nat \<Rightarrow> bool"
  drainOnce :: "drain_listener list"
  called :: "nat list"
  consumed :: "byte list"

text \<open>The stream after the constructor, \<open>submit\<close> and \<open>_attach\<close>, for a row mode and for
  the answers of the consumer and of the connection stream.\<close>

definition copy_both_init :: "bool \<Rightarrow> (nat \<Rightarrow> bool) \<Rightarrow> (nat \<Rightarrow> bool) \<Rightarrow> copy_both" where
  "copy_both_init rm pok wok = \<lparr> state = PG_CODE, buffer = [], unreadMessageContentLength = 0,
     copyDataChunks = [], code = None, rowMode = rm, released = False,
     gotCopyInResponse = False, chunks = [], cb = None, cb_flush = None, corked = 1,
     pushed = [], ended = False, pushOk = pok, listening = True, dataHandler = False,
     handed = [], resumes = 0, written = [], writeOk = wok, drainOnce = [], called = [],
     consumed = [] \<rparr>"

subsection \<open>Writable side\<close>

text \<open>\<open>this.connection.stream.write(buf)\<close>.\<close>

definition stream_write :: "byte list \<Rightarrow> copy_both \<Rightarrow> copy_both \<times> bool" where
  "stream_write buf s = (s\<lparr>written := written s @ [buf]\<rparr>, writeOk s (length (written s)))"

text \<open>\<open>flushChunk\<close>: \<open>writeUInt32BE\<close> throws when \<open>chunk.length + 4\<close> exceeds
  \<open>0xffffffff\<close>, before anything is written.\<close>

definition flushChunk :: "message_formats \<Rightarrow> byte list \<Rightarrow> copy_both \<Rightarrow> js_error + copy_both \<times> bool" where
  "flushChunk fmt chunk s =
     (if int (length chunk) + 4 \<le> 4294967295 then
        (let lenBuffer = CopyData fmt # uint32be_bytes (int (length chunk) + 4);
             (s1, ok1) = stream_write lenBuffer s
         in Inr (stream_write chunk s1))
      else Inl RangeError)"

text \<open>The loop of \<open>flush\<close>, \<open>while (ok && (chunk = this.chunks.shift()))\<close>, over the
  queue: \<open>shift\<close> removes the chunk before it is written.\<close>

fun flush_loop :: "message_formats \<Rightarrow> byte list list \<Rightarrow> copy_both \<Rightarrow> js_error + copy_both \<times> bool" where
  "flush_loop fmt [] s = Inr (s\<lparr>chunks := []\<rparr>, True)"
| "flush_loop fmt (chunk # rest) s =
     (case flushChunk fmt chunk (s\<lparr>chunks := rest\<rparr>) of
        Inl e \<Rightarrow> Inl e
      | Inr (s1, ok) \<Rightarrow> if ok then flush_loop fmt rest s1 else Inr (s1, False))"

definition flush :: "message_formats \<Rightarrow> nat option \<Rightarrow> copy_both \<Rightarrow> js_error + copy_both" where
  "flush fmt callback s =
     (case flush_loop fmt (chunks s) s of
        Inl e \<Rightarrow> Inl e
      | Inr (s1, ok) \<Rightarrow>
          Inr (case callback of
                 None \<Rightarrow> s1
               | Some c \<Rightarrow>
                   if ok then s1\<lparr>called := called s1 @ [c]\<rparr>
                   else if length (chunks s1) \<noteq> 0
                     then s1\<lparr>drainOnce := drainOnce s1 @ [FlushThen c]\<rparr>
                     else s1\<lparr>drainOnce := drainOnce s1 @ [Call c]\<rparr>))"

text \<open>\<open>_write(chunk, enc, cb)\<close> and \<open>_writev(chunks, cb)\<close>.\<close>

definition "write" :: "message_formats \<Rightarrow> byte list \<Rightarrow> nat \<Rightarrow> copy_both \<Rightarrow> js_error + copy_both" where
  "write fmt chunk callback s =
     (let s1 = s\<lparr>chunks := chunks s @ [chunk]\<rparr> in
      if gotCopyInResponse s1 then flush fmt (Some callback) s1
      else Inr (s1\<lparr>cb := Some callback\<rparr>))"

definition writev :: "message_formats \<Rightarrow> byte list list \<Rightarrow> nat \<Rightarrow> copy_both \<Rightarrow> js_error + copy_both" where
  "writev fmt cs callback s =
     (let s1 = s\<lparr>chunks := chunks s @ cs\<rparr> in
      if gotCopyInResponse s1 then flush fmt (Some callback) s1
      else Inr (s1\<lparr>cb := Some callback\<rparr>))"

text \<open>\<open>_final(cb)\<close>: flush without a callback, then the CopyDone frame.\<close>

definition final :: "message_formats \<Rightarrow> nat \<Rightarrow> copy_both \<Rightarrow> js_error + copy_both" where
  "final fmt callback s =
     (case flush fmt None s of
        Inl e \<Rightarrow> Inl e
      | Inr s1 \<Rightarrow>
          (let finBuffer = [CopyDone fmt, 0, 0, 0, 4];
               (s2, ok) = stream_write finBuffer s1
           in Inr (s2\<lparr>cb_flush := Some callback\<rparr>)))"

text \<open>\<open>_startCopyIn\<close>.\<close>

definition startCopyIn :: "message_formats \<Rightarrow> copy_both \<Rightarrow> js_error + copy_both" where
  "startCopyIn fmt s =
     (let s1 = s\<lparr>gotCopyInResponse := True, corked := corked s - 1\<rparr> in
      case flush fmt None s1 of
        Inl e \<Rightarrow> Inl e
      | Inr s2 \<Rightarrow>
          Inr (case cb s2 of
                 None \<Rightarrow> s2
               | Some c \<Rightarrow> s2\<lparr>cb := None, called := called s2 @ [c]\<rparr>))"

subsection \<open>Readable side\<close>

text \<open>\<open>_detach\<close>: everything left in the accumulator is taken and given to the
  connection's data handler, which is registered again.\<close>

definition detach :: "copy_both \<Rightarrow> copy_both" where
  "detach s =
     (let unreadBuffer = take (length (buffer s)) (buffer s) in
      s\<lparr>buffer := drop (length (buffer s)) (buffer s), listening := False,
        dataHandler := True, handed := handed s @ [unreadBuffer], resumes := resumes s + 1\<rparr>)"

text \<open>\<open>_cleanup\<close> sets the two buffers to \<open>null\<close>.\<close>

definition cleanup :: "copy_both \<Rightarrow> copy_both" where
  "cleanup s = s\<lparr>buffer := [], copyDataChunks := [], released := True\<rparr>"

text \<open>\<open>_flushCopyData\<close>.\<close>

definition flushCopyData :: "copy_both \<Rightarrow> copy_both \<times> bool" where
  "flushCopyData s =
     (let len = length (copyDataChunks s) in
      if len > 0 then
        (s\<lparr>copyDataChunks := drop len (copyDataChunks s),
           pushed := pushed s @ [take len (copyDataChunks s)]\<rparr>,
         pushOk s (length (pushed s)))
      else (s, True))"

text \<open>How one pass of the body of the \<open>while\<close> loop of \<open>_parse\<close> goes on: to the next
  statement, to the end of the loop (\<open>break\<close>), out of \<open>_parse\<close> (\<open>return\<close>), or with
  an exception.\<close>

datatype 'a flow = Continue 'a | Break 'a | Return copy_both | Throw js_error

text \<open>The block \<open>if (PG_CODE === this._state)\<close>.\<close>

definition on_PG_CODE :: "message_formats \<Rightarrow> copy_both \<Rightarrow> copy_both flow" where
  "on_PG_CODE fmt s =
     (if state s = PG_CODE then
        (if \<not> has 1 (buffer s) then Break s
         else
           (let s1 = s\<lparr>code := Some (peekUInt8 (buffer s))\<rparr> in
            if code s1 = Some (ErrorResponse fmt) then Return (detach s1)
            else Continue (s1\<lparr>buffer := drop 1 (buffer s1),
                              consumed := consumed s1 @ take 1 (buffer s1),
                              state := PG_LENGTH\<rparr>)))
      else Continue s)"

text \<open>The block \<open>if (PG_LENGTH === this._state)\<close>.\<close>

definition on_PG_LENGTH :: "copy_both \<Rightarrow> copy_both flow" where
  "on_PG_LENGTH s =
     (if state s = PG_LENGTH then
        (if \<not> has 4 (buffer s) then Break s
         else Continue (s\<lparr>unreadMessageContentLength := int (readUInt32BE (buffer s) 0) - 4,
                          buffer := drop 4 (buffer s),
                          consumed := consumed s @ take 4 (buffer s),
                          state := PG_MESSAGE\<rparr>))
      else Continue s)"

text \<open>The first statement of the block \<open>if (PG_MESSAGE === this._state)\<close>: take what is
  there of the content.\<close>

definition take_content :: "message_formats \<Rightarrow> copy_both \<Rightarrow> copy_both" where
  "take_content fmt s =
     (if unreadMessageContentLength s > 0 \<and> length (buffer s) > 0 then
        (let n = min (int (length (buffer s))) (unreadMessageContentLength s);
             messageContentChunk = take (nat n) (buffer s);
             s1 = s\<lparr>buffer := drop (nat n) (buffer s),
                    consumed := consumed s @ messageContentChunk,
                    unreadMessageContentLength := unreadMessageContentLength s - n\<rparr>
         in if code s1 = Some (CopyData fmt)
            then s1\<lparr>copyDataChunks := copyDataChunks s1 @ messageContentChunk\<rparr>
            else s1)
      else s)"

text \<open>The \<open>switch\<close> on the code of a message that has been captured in full, with the
  locals \<open>done\<close> and \<open>drained\<close>; the cases CopyDone and \<open>default\<close> share one body.\<close>

definition captured ::
  "message_formats \<Rightarrow> copy_both \<times> bool \<times> bool \<Rightarrow> (copy_both \<times> bool \<times> bool) flow" where
  "captured fmt x =
     (case x of (s, done, drained) \<Rightarrow>
        if code s = Some (CopyBothResponse fmt) then
          (case startCopyIn fmt s of
             Inl e \<Rightarrow> Throw e
           | Inr s1 \<Rightarrow> Continue (s1\<lparr>state := PG_CODE\<rparr>, done, drained))
        else if code s = Some (CopyData fmt) then
          (if rowMode s then
             (let (s1, drained1) = flushCopyData s in Continue (s1\<lparr>state := PG_CODE\<rparr>, done, drained1))
           else Continue (s\<lparr>state := PG_CODE\<rparr>, done, drained))
        else if code s = Some (ParameterStatus fmt) \<or> code s = Some (NoticeResponse fmt)
                \<or> code s = Some (NotificationResponse fmt) then
          Continue (s\<lparr>state := PG_CODE\<rparr>, done, drained)
        else Continue (s\<lparr>state := PG_CODE\<rparr>, True, drained))"

text \<open>The block \<open>if (PG_MESSAGE === this._state)\<close>.\<close>

definition on_PG_MESSAGE ::
  "message_formats \<Rightarrow> copy_both \<times> bool \<times> bool \<Rightarrow> (copy_both \<times> bool \<times> bool) flow" where
  "on_PG_MESSAGE fmt x =
     (case x of (s, done, drained) \<Rightarrow>
        if state s = PG_MESSAGE then
          (let s1 = take_content fmt s in
           if unreadMessageContentLength s1 = 0 then captured fmt (s1, done, drained)
           else Continue (s1, done, drained))
        else Continue (s, done, drained))"

text \<open>One pass of the body of the loop: the three blocks in turn.\<close>

definition body ::
  "message_formats \<Rightarrow> copy_both \<times> bool \<times> bool \<Rightarrow> (copy_both \<times> bool \<times> bool) flow" where
  "body fmt x =
     (case x of (s, done, drained) \<Rightarrow>
        (case on_PG_CODE fmt s of
           Break s1 \<Rightarrow> Break (s1, done, drained)
         | Return s1 \<Rightarrow> Return s1
         | Throw e \<Rightarrow> Throw e
         | Continue s1 \<Rightarrow>
             (case on_PG_LENGTH s1 of
                Break s2 \<Rightarrow> Break (s2, done, drained)
              | Return s2 \<Rightarrow> Return s2
              | Throw e \<Rightarrow> Throw e
              | Continue s2 \<Rightarrow> on_PG_MESSAGE fmt (s2, done, drained))))"

text \<open>
  The loop \<open>while (!done && this._buffer.size > 0)\<close>. A frame that declares a length
  below 4 leaves a negative \<open>unreadMessageContentLength\<close>, with which a pass changes
  nothing: the loop may not end, and then its value is \<open>None\<close>. Otherwise the value says
  how the loop was left: at its end or by a \<open>break\<close>, with the state and the locals; by
  the \<open>return\<close> of the ErrorResponse interception; by an exception.
\<close>

datatype loop_exit = Ended copy_both bool bool | Intercepted copy_both | Thrown js_error

partial_function (option) parse_loop ::
  "message_formats \<Rightarrow> copy_both \<times> bool \<times> bool \<Rightarrow> loop_exit option" where
  "parse_loop fmt x =
     (case x of (s, done, drained) \<Rightarrow>
        if \<not> done \<and> length (buffer s) > 0 then
          (case body fmt (s, done, drained) of
             Continue y \<Rightarrow> parse_loop fmt y
           | Break (s1, done1, drained1) \<Rightarrow> Some (Ended s1 done1 drained1)
           | Return s1 \<Rightarrow> Some (Intercepted s1)
           | Throw e \<Rightarrow> Some (Thrown e))
        else Some (Ended s done drained))"

declare parse_loop.simps [code]

text \<open>What follows the loop in \<open>_parse\<close>.\<close>

definition after_loop :: "copy_both \<Rightarrow> bool \<Rightarrow> bool \<Rightarrow> copy_both \<times> bool option" where
  "after_loop s done drained =
     (let (s1, drained1) = (if \<not> rowMode s then flushCopyData s else (s, drained));
          s2 = (if done then cleanup ((detach s1)\<lparr>ended := True\<rparr>) else s1)
      in (s2, Some drained1))"

text \<open>
  \<open>_parse(chunk)\<close>. The value is \<open>None\<close> when the loop does not end; an exception is
  \<open>Inl\<close>; otherwise the new state comes with the value returned: \<open>Some drained\<close>, or
  \<open>None\<close> for the \<open>return\<close> without a value of the interception.
\<close>

definition parse ::
  "message_formats \<Rightarrow> byte list \<Rightarrow> copy_both \<Rightarrow> (js_error + copy_both \<times> bool option) option" where
  "parse fmt chunk s =
     (if released s then Some (Inl TypeError)
      else
        (case parse_loop fmt (s\<lparr>buffer := buffer s @ chunk\<rparr>, False, True) of
           None \<Rightarrow> None
         | Some (Ended s1 done drained) \<Rightarrow> Some (Inr (after_loop s1 done drained))
         | Some (Intercepted s1) \<Rightarrow> Some (Inr (s1, None))
         | Some (Thrown e) \<Rightarrow> Some (Inl e)))"

subsection \<open>Delivery of chunks\<close>

text \<open>
  The connection stream delivers its chunks in order. While \<open>_onReadableEvent\<close> is
  registered, \<open>_forward\<close> reads each chunk and gives it to \<open>_parse\<close>
  (\<open>this._drained = this._parse(chunk)\<close>; a consumer that is not ready delays the next
  read, it does not skip a chunk). After \<open>_detach\<close> the connection's own data handler is
  registered again and receives the chunks itself.
\<close>

fun deliver :: "message_formats \<Rightarrow> byte list list \<Rightarrow> copy_both \<Rightarrow> (js_error + copy_both) option" where
  "deliver fmt [] s = Some (Inr s)"
| "deliver fmt (chunk # rest) s =
     (if listening s then
        (case parse fmt chunk s of
           None \<Rightarrow> None
         | Some (Inl e) \<Rightarrow> Some (Inl e)
         | Some (Inr (s1, r)) \<Rightarrow> deliver fmt rest s1)
      else deliver fmt rest (s\<lparr>handed := handed s @ [chunk]\<rparr>))"

section \<open>Notions used to state the properties\<close>



text \<open>
  Every frame header that is completely present in a byte sequence starting at a frame
  boundary declares a length of at least 4.
\<close>

function declared_ok :: "byte list \<Rightarrow> bool" where
  "declared_ok bs =
     (if length bs < 5 then True
      else if readUInt32BE bs 1 < 4 then False
      else declared_ok (drop (1 + readUInt32BE bs 1) bs))"
  by pat_completeness auto
termination
  by (relation "measure length") auto

declare declared_ok.simps [simp del]

text \<open>
  The same for the accumulator of a decoder that may be inside a frame: after the code
  the length field comes first; inside a message the count of unread content is not
  negative (the length that was read was at least 4) and the next frame starts behind
  the content.
\<close>

definition pending_ok :: "copy_both \<Rightarrow> bool" where
  "pending_ok s =
     (case state s of
        PG_CODE \<Rightarrow> declared_ok (buffer s)
      | PG_LENGTH \<Rightarrow>
          (if length (buffer s) < 4 then True
           else 4 \<le> readUInt32BE (buffer s) 0
              \<and> declared_ok (drop (readUInt32BE (buffer s) 0) (buffer s)))
      | PG_MESSAGE \<Rightarrow>
          0 \<le> unreadMessageContentLength s
          \<and> declared_ok (drop (nat (unreadMessageContentLength s)) (buffer s)))"

text \<open>The measure of the decoding loop: the bytes in the accumulator, and one more step
  for a message that waits to be completed.\<close>

definition weight :: "copy_both \<Rightarrow> nat" where
  "weight s = 2 * length (buffer s) + (if state s = PG_MESSAGE then 1 else 0)"

text \<open>Two states that differ on the writable side only.\<close>

definition write_side_only :: "copy_both \<Rightarrow> copy_both \<Rightarrow> bool" where
  "write_side_only s s' =
     (s' = s\<lparr>gotCopyInResponse := gotCopyInResponse s', chunks := chunks s', cb := cb s',
            corked := corked s', written := written s', drainOnce := drainOnce s',
            called := called s'\<rparr>)"

text \<open>A step of the decoder that moved bytes from the accumulator to the consumed bytes
  and did not touch the registration on the connection stream.\<close>

definition kept :: "copy_both \<Rightarrow> copy_both \<Rightarrow> bool" where
  "kept s s' = (consumed s' @ buffer s' = consumed s @ buffer s \<and> handed s' = handed s
      \<and> listening s' = listening s \<and> released s' = released s \<and> ended s' = ended s
      \<and> rowMode s' = rowMode s)"







section \<open>Notions used to compare the chunkings of a stream\<close>

text \<open>The decoder state after \<open>Buffer.concat([this.buffer, chunk])\<close>: the accumulator with
  more bytes at its end.\<close>

definition fed :: "byte list \<Rightarrow> copy_both \<Rightarrow> copy_both" where
  "fed c s = s\<lparr>buffer := buffer s @ c\<rparr>"









text \<open>A stream of complete frames, each a code and a payload, as bytes on the wire.\<close>

definition wire :: "(byte \<times> byte list) list \<Rightarrow> byte list" where
  "wire fs = concat (map (\<lambda>(c, p). frame c p) fs)"

text \<open>The payloads of the CopyData frames of a stream that are not empty, in the order of
  the frames.\<close>

definition rows :: "message_formats \<Rightarrow> (byte \<times> byte list) list \<Rightarrow> byte list list" where
  "rows fmt fs = filter (\<lambda>p. p \<noteq> []) (map snd (filter (\<lambda>(c, p). c = CopyData fmt) fs))"




section \<open>Lemmas\<close>



lemma length_uint32be_bytes [simp]: "length (uint32be_bytes n) = 4"
  by (simp add: uint32be_bytes_def)





lemma flushChunk_read_side:
  "flushChunk fmt c s = Inr (s', ok) \<Longrightarrow>
     state s' = state s \<and> buffer s' = buffer s
     \<and> unreadMessageContentLength s' = unreadMessageContentLength s"
  by (auto simp: flushChunk_def stream_write_def split: if_splits)

lemma flush_loop_read_side:
  "flush_loop fmt cs s = Inr (s', ok) \<Longrightarrow>
     state s' = state s \<and> buffer s' = buffer s
     \<and> unreadMessageContentLength s' = unreadMessageContentLength s"
proof (induction cs arbitrary: s)
  case Nil
  then show ?case by auto
next
  case (Cons c cs)
  then show ?case
    by (fastforce split: sum.splits if_splits dest!: flushChunk_read_side)
qed

lemma startCopyIn_read_side:
  "startCopyIn fmt s = Inr s' \<Longrightarrow>
     state s' = state s \<and> buffer s' = buffer s
     \<and> unreadMessageContentLength s' = unreadMessageContentLength s"
  by (auto simp: startCopyIn_def flush_def split: sum.splits option.splits dest!: flush_loop_read_side)

lemma readUInt32BE_Cons: "readUInt32BE (x # xs) (Suc 0) = readUInt32BE xs 0"
  by (simp add: readUInt32BE_def)

lemma on_PG_CODE_progress:
  assumes "on_PG_CODE fmt s = Continue s1" "pending_ok s"
  shows "pending_ok s1 \<and> state s1 \<noteq> PG_CODE
     \<and> (if state s = PG_CODE then weight s1 < weight s else s1 = s)"
proof (cases "state s = PG_CODE")
  case False
  then show ?thesis using assms by (simp add: on_PG_CODE_def)
next
  case True
  from assms(1) True obtain x b where b: "buffer s = x # b"
    by (cases "buffer s") (auto simp: on_PG_CODE_def has_def)
  have s1: "state s1 = PG_LENGTH" "buffer s1 = b"
    using assms(1) True b by (auto simp: on_PG_CODE_def has_def Let_def split: if_splits)
  have "pending_ok s1"
    using assms(2) True b s1 declared_ok.simps[of "x # b"]
    by (auto simp: pending_ok_def readUInt32BE_Cons split: if_splits)
  then show ?thesis using True b s1 by (simp add: weight_def)
qed

lemma on_PG_LENGTH_progress:
  assumes "on_PG_LENGTH s = Continue s1" "pending_ok s" "state s \<noteq> PG_CODE"
  shows "pending_ok s1 \<and> state s1 = PG_MESSAGE
     \<and> (if state s = PG_LENGTH then weight s1 < weight s else s1 = s)"
proof (cases "state s = PG_LENGTH")
  case False
  then show ?thesis using assms by (cases "state s") (simp_all add: on_PG_LENGTH_def)
next
  case True
  then have s1: "4 \<le> length (buffer s)" "state s1 = PG_MESSAGE" "buffer s1 = drop 4 (buffer s)"
      "unreadMessageContentLength s1 = int (readUInt32BE (buffer s) 0) - 4"
    using assms(1) by (auto simp: on_PG_LENGTH_def has_def split: if_splits)
  have "pending_ok s1"
    using assms(2) True s1 by (auto simp: pending_ok_def nat_diff_distrib)
  then show ?thesis using True s1 by (simp add: weight_def)
qed

lemma take_content_progress:
  assumes "pending_ok s" "state s = PG_MESSAGE"
  shows "pending_ok (take_content fmt s) \<and> state (take_content fmt s) = PG_MESSAGE
     \<and> length (buffer (take_content fmt s)) \<le> length (buffer s)
     \<and> (buffer s \<noteq> [] \<and> unreadMessageContentLength s \<noteq> 0
          \<longrightarrow> length (buffer (take_content fmt s)) < length (buffer s))"
  using assms
  apply (simp add: take_content_def pending_ok_def Let_def min_def)
  apply (auto simp: nat_diff_distrib)
  done

lemma captured_progress:
  assumes "captured fmt (s, done, d) = Continue (s', done', d')"
  shows "state s' = PG_CODE \<and> buffer s' = buffer s"
  using assms
  by (auto simp: captured_def flushCopyData_def Let_def split: if_splits sum.splits prod.splits
      dest!: startCopyIn_read_side)

lemma on_PG_MESSAGE_progress:
  assumes "on_PG_MESSAGE fmt (s, done, d) = Continue (s', done', d')" "pending_ok s"
     "state s = PG_MESSAGE"
  shows "pending_ok s' \<and> weight s' \<le> weight s \<and> (buffer s \<noteq> [] \<longrightarrow> weight s' < weight s)"
proof -
  let ?t = "take_content fmt s"
  note t = take_content_progress[OF assms(2,3), of fmt]
  show ?thesis
  proof (cases "unreadMessageContentLength ?t = 0")
    case True
    then have c: "captured fmt (?t, done, d) = Continue (s', done', d')"
      using assms by (simp add: on_PG_MESSAGE_def)
    from captured_progress[OF c] t True assms(3) show ?thesis
      by (auto simp: weight_def pending_ok_def)
  next
    case False
    then have "s' = ?t" using assms by (simp add: on_PG_MESSAGE_def)
    moreover have "unreadMessageContentLength s \<noteq> 0"
      using False by (auto simp: take_content_def)
    ultimately show ?thesis using t assms(3) by (auto simp: weight_def)
  qed
qed

lemma body_progress:
  assumes "body fmt (s, done, d) = Continue (s', done', d')" "pending_ok s" "buffer s \<noteq> []"
  shows "pending_ok s' \<and> weight s' < weight s"
proof -
  from assms(1) obtain s1 where c1: "on_PG_CODE fmt s = Continue s1"
    by (auto simp: body_def split: flow.splits)
  from assms(1) c1 obtain s2 where c2: "on_PG_LENGTH s1 = Continue s2"
    by (auto simp: body_def split: flow.splits)
  from assms(1) c1 c2 have c3: "on_PG_MESSAGE fmt (s2, done, d) = Continue (s', done', d')"
    by (auto simp: body_def)
  note p1 = on_PG_CODE_progress[OF c1 assms(2)]
  then have p2: "pending_ok s2 \<and> state s2 = PG_MESSAGE
     \<and> (if state s1 = PG_LENGTH then weight s2 < weight s1 else s2 = s1)"
    using on_PG_LENGTH_progress[OF c2] by blast
  then have p3: "pending_ok s' \<and> weight s' \<le> weight s2 \<and> (buffer s2 \<noteq> [] \<longrightarrow> weight s' < weight s2)"
    using on_PG_MESSAGE_progress[OF c3] by blast
  show ?thesis
  proof (cases "state s")
    case PG_CODE
    then show ?thesis using p1 p2 p3 by (auto split: if_splits)
  next
    case PG_LENGTH
    then show ?thesis using p1 p2 p3 by (auto split: if_splits)
  next
    case PG_MESSAGE
    then show ?thesis using p1 p2 p3 assms(3) by (auto split: if_splits)
  qed
qed

lemma parse_loop_terminates:
  "pending_ok s \<Longrightarrow> \<exists>r. parse_loop fmt (s, fin, d) = Some r"
proof (induction "weight s" arbitrary: s fin d rule: less_induct)
  case less
  show ?case
  proof (cases "\<not> fin \<and> 0 < length (buffer s)")
    case False
    then show ?thesis by (subst parse_loop.simps) auto
  next
    case True
    show ?thesis
    proof (cases "body fmt (s, fin, d)")
      case (Continue y)
      obtain s' fin' d' where y: "y = (s', fin', d')" by (cases y)
      from body_progress[OF Continue[unfolded y] less.prems] True
      have "pending_ok s'" "weight s' < weight s" by auto
      from less.hyps[OF this(2) this(1), of fin' d'] show ?thesis
        using True Continue y by (subst parse_loop.simps) simp
    next
      case (Break y)
      then show ?thesis using True by (subst parse_loop.simps) (auto split: prod.splits)
    next
      case (Return x3)
      then show ?thesis using True by (subst parse_loop.simps) auto
    next
      case (Throw x4)
      then show ?thesis using True by (subst parse_loop.simps) auto
    qed
  qed
qed

lemma write_side_only_refl [simp]: "write_side_only s s"
  by (simp add: write_side_only_def)







lemma kept_refl [simp]: "kept s s" by (simp add: kept_def)






lemma on_PG_CODE_no_Throw: "on_PG_CODE fmt s \<noteq> Throw e"
  by (simp add: on_PG_CODE_def Let_def)







lemma kept_state [simp]: "kept s (s'\<lparr>state := st\<rparr>) = kept s s'"
  by (simp add: kept_def)






















lemma length_frame [simp]: "length (frame c p) = length p + 5"
  by (simp add: frame_def)




lemma parse_loop_done [simp]: "parse_loop fmt (s, True, d) = Some (Ended s True d)"
  by (subst parse_loop.simps) simp


lemma frame_not_Nil [simp]: "frame c p \<noteq> []"
  by (simp add: frame_def)








lemma frame_nth0 [simp]: "frame c p ! 0 = c" "(frame c p @ rest) ! 0 = c"
  by (simp_all add: frame_def)

section \<open>Chunk boundaries in row mode\<close>







lemma fed_state [simp]: "fed c (s\<lparr>state := st\<rparr>) = (fed c s)\<lparr>state := st\<rparr>"
  by (cases s) (simp add: fed_def)









lemma fed_code [simp]: "fed c (s\<lparr>code := x\<rparr>) = (fed c s)\<lparr>code := x\<rparr>"
  by (cases s) (simp add: fed_def)












lemma fed_Nil [simp]: "fed [] s = s"
  by (cases s) (simp add: fed_def)

















lemma wire_Cons [simp]: "wire ((c, p) # fs) = frame c p @ wire fs"
  by (simp add: wire_def)

lemma wire_Nil [simp]: "wire [] = []"
  by (simp add: wire_def)


lemma rows_Nil [simp]: "rows fmt [] = []"
  by (simp add: rows_def)











section \<open>A declared length below 4\<close>

text \<open>
  \<open>_unreadMessageContentLength\<close> is the declared length minus 4. When a header declares
  less than 4 it is negative: the \<open>PG_MESSAGE\<close> case neither takes bytes nor finds the
  count equal to 0, the state is left as it was, and the loop does not end as long as a
  byte is in the accumulator.
\<close>

lemma body_negative_length:
  assumes "state s = PG_MESSAGE" "unreadMessageContentLength s < 0"
  shows "body fmt (s, fin, d) = Continue (s, fin, d)"
  using assms
  by (simp add: body_def on_PG_CODE_def on_PG_LENGTH_def on_PG_MESSAGE_def take_content_def)

lemma parse_loop_negative_length:
  assumes "state s = PG_MESSAGE" "unreadMessageContentLength s < 0" "buffer s \<noteq> []"
  shows "parse_loop fmt (s, False, d) = None"
proof (rule ccontr)
  assume "parse_loop fmt (s, False, d) \<noteq> None"
  then obtain r where r: "parse_loop fmt (s, False, d) = Some r" by auto
  let ?P = "\<lambda>fmt' x (r :: loop_exit). \<not> (fmt' = fmt \<and> x = (s, False, d))"
  have "(case (fmt, (s, False, d)) of (a, b) \<Rightarrow> ?P a b) r"
  proof (rule parse_loop.raw_induct[where P = ?P and xa = "(fmt, (s, False, d))" and y = r])
    fix loop fmt' x r'
    assume ih: "\<And>a b y. loop a b = Some y \<Longrightarrow> \<not> (a = fmt \<and> b = (s, False, d))"
      and st: "(case x of
      (s, done, drained) \<Rightarrow>
        if \<not> done \<and> 0 < length (buffer s)
        then case body fmt' (s, done, drained) of
             Continue y \<Rightarrow> loop fmt' y
             | Break (s1, done1, drained1) \<Rightarrow> Some (Ended s1 done1 drained1)
             | Return s1 \<Rightarrow> Some (Intercepted s1) | Throw e \<Rightarrow> Some (Thrown e)
        else Some (Ended s done drained)) = Some r'"
    show "\<not> (fmt' = fmt \<and> x = (s, False, d))"
    proof
      assume a: "fmt' = fmt \<and> x = (s, False, d)"
      with st assms have "loop fmt (s, False, d) = Some r'"
        by (simp add: body_negative_length)
      with ih show False by blast
    qed
  next
    show "(case (fmt, (s, False, d)) of (x, xa) \<Rightarrow> parse_loop x xa) = Some r" using r by simp
  qed
  then show False by simp
qed

lemma parse_diverges_below_four:
  "parse pg_codes [0x64, 0, 0, 0, 3, 9] (copy_both_init False (\<lambda>n. True) (\<lambda>n. True)) = None"
proof -
  let ?s0 = "copy_both_init False (\<lambda>n. True) (\<lambda>n. True)"
  let ?s = "?s0\<lparr>buffer := buffer ?s0 @ [0x64, 0, 0, 0, 3, 9]\<rparr>"
  obtain s1 where b: "body pg_codes (?s, False, True) = Continue (s1, False, True)"
    and s1: "state s1 = PG_MESSAGE" "unreadMessageContentLength s1 < 0" "buffer s1 \<noteq> []"
    by (simp add: body_def on_PG_CODE_def on_PG_LENGTH_def on_PG_MESSAGE_def take_content_def
        copy_both_init_def has_def peekUInt8_def pg_codes_def readUInt32BE_def uint32be_def Let_def)
  have "parse_loop pg_codes (?s, False, True) = parse_loop pg_codes (s1, False, True)"
    using b by (subst parse_loop.simps) (simp add: copy_both_init_def)
  with parse_loop_negative_length[OF s1] show ?thesis
    by (simp add: parse_def copy_both_init_def)
qed

section \<open>The claims\<close>

subsection \<open>C1: chunk-boundary independence\<close>

text \<open>
  C1 (chunk-boundary independence: for every split of a byte stream the same forwarded
  output and the same errors, and no side effect of a partial frame executed again).
  The claim fails on both decoders.

  \<^item> copy-to.js keeps an incomplete frame whole in \<open>_remainder\<close> and examines its code
    again on the next call. A CopyOutResponse frame with a payload of three bytes,
    followed by a CopyData frame, raises no error when it arrives in one chunk; split
    after its header, the second call sees the code a second time and emits
    \<open>Unexpected CopyOutResponse message\<close>.
  \<^item> copy-both.js in raw mode forwards CopyData payload only after its loop; the
    interception of an ErrorResponse returns from inside the loop. A CopyData frame
    followed by an ErrorResponse frame in one chunk forwards nothing; the same bytes
    split between the frames forward the payload.
\<close>

theorem split_changes_errors_and_output:
  "t_errors (transform pg_codes
       (frame (CopyOutResponse pg_codes) [0, 0, 0] @ frame (CopyData pg_codes) [1, 2])
       copy_to_init) = []
   \<and> t_errors (transform pg_codes
       (drop 5 (frame (CopyOutResponse pg_codes) [0, 0, 0] @ frame (CopyData pg_codes) [1, 2]))
       (transform pg_codes
          (take 5 (frame (CopyOutResponse pg_codes) [0, 0, 0] @ frame (CopyData pg_codes) [1, 2]))
          copy_to_init)) = [UnexpectedCopyOutResponse]
   \<and> map_option (map_sum id pushed)
         (deliver pg_codes [frame (CopyData pg_codes) [1, 2] @ frame (ErrorResponse pg_codes) [7]]
            (copy_both_init False (\<lambda>n. True) (\<lambda>n. True))) = Some (Inr [])
   \<and> map_option (map_sum id pushed)
         (deliver pg_codes [frame (CopyData pg_codes) [1, 2], frame (ErrorResponse pg_codes) [7]]
            (copy_both_init False (\<lambda>n. True) (\<lambda>n. True))) = Some (Inr [[1, 2]])"
  by code_simp

subsection \<open>C2: no byte is lost or duplicated across detach\<close>




subsection \<open>C3: ErrorResponse interception\<close>




subsection \<open>C4: informational frames are never forwarded\<close>

text \<open>
  C4 (informational frames are never forwarded, whatever precedes them in the chunk).
  \<open>_transform\<close> of copy-to.js sets \<open>needPush\<close> at a CopyData frame and never resets it
  within the call, so the payload of a NoticeResponse frame that follows a CopyData frame
  in the same chunk is copied to the output: the chunk with the row \<open>[1, 2]\<close> and the
  notice \<open>[7, 8]\<close> is forwarded as \<open>[1, 2, 7, 8]\<close>. Delivered in a chunk of its own, the
  same notice is discarded, as the comment in the source says.
\<close>

theorem copy_to_forwards_notice_after_data:
  "t_pushed (transform pg_codes
       (frame (CopyData pg_codes) [1, 2] @ frame (NoticeResponse pg_codes) [7, 8])
       copy_to_init) = [[1, 2, 7, 8]]
   \<and> t_pushed (transform pg_codes (frame (NoticeResponse pg_codes) [7, 8])
       (transform pg_codes (frame (CopyData pg_codes) [1, 2]) copy_to_init)) = [[1, 2]]"
  by code_simp

subsection \<open>C5: unrecognised codes\<close>




subsection \<open>C6: a second copy-start frame\<close>




subsection \<open>C7: the acknowledgment gate of the writable side\<close>




subsection \<open>C8: inbound round trip\<close>

text \<open>
  C8 (every written chunk is sent as a CopyData frame, followed by one CopyDone frame).
  \<open>flush\<close> stops at the first chunk for which the connection stream answers that it is
  full, and waits for \<open>drain\<close> only when it was given a callback; \<open>_startCopyIn\<close> and
  \<open>_final\<close> call it without one. Three chunks written and the stream ended before the
  acknowledgment arrive in one \<open>_writev\<close>; with a connection stream that is full,
  \<open>_startCopyIn\<close> sends the first and calls the callback of the write, \<open>_final\<close> sends the
  second and then the CopyDone frame. The third chunk is still queued and nothing is
  registered to send it.
\<close>

theorem final_leaves_chunks_behind:
  "(case writev pg_codes [[1], [2], [3]] 7 (copy_both_init False (\<lambda>n. True) (\<lambda>n. False)) of
       Inl e \<Rightarrow> None
     | Inr s1 \<Rightarrow> (case startCopyIn pg_codes s1 of
         Inl e \<Rightarrow> None
       | Inr s2 \<Rightarrow> (case final pg_codes 8 s2 of
           Inl e \<Rightarrow> None
         | Inr s3 \<Rightarrow> Some (written s3, chunks s3, called s3, drainOnce s3))))
    = Some ([[0x64, 0, 0, 0, 5], [1], [0x64, 0, 0, 0, 5], [2], [0x63, 0, 0, 0, 4]], [[3]], [7], [])"
  by code_simp

subsection \<open>C9: one unit per CopyData frame in row mode\<close>




subsection \<open>C10: termination of the decoding loop\<close>

text \<open>
  C10 (under the hypothesis that every frame header declares a length of at least 4,
  \<open>_parse\<close> terminates). For every state and chunk such that the accumulator with the
  chunk appended satisfies \<open>pending_ok\<close>, \<open>_parse\<close> returns. Each pass of the loop that
  goes on to another pass leaves \<open>pending_ok\<close> true and makes \<open>weight\<close> smaller (lemma
  \<open>body_progress\<close>): it reads at least one byte, or completes a frame and awaits a code.
  Without the hypothesis the loop need not end (lemma \<open>parse_diverges_below_four\<close>).
\<close>

theorem parse_terminates:
  assumes "pending_ok (s\<lparr>buffer := buffer s @ chunk\<rparr>)"
  shows "\<exists>r. parse fmt chunk s = Some r"
proof -
  from parse_loop_terminates[OF assms, of fmt False True]
  obtain r where "parse_loop fmt (s\<lparr>buffer := buffer s @ chunk\<rparr>, False, True) = Some r" by blast
  then show ?thesis by (cases r) (simp_all add: parse_def)
qed

theorem parse_terminates_witness:
  "pending_ok ((copy_both_init False (\<lambda>n. True) (\<lambda>n. True))
      \<lparr>buffer := buffer (copy_both_init False (\<lambda>n. True) (\<lambda>n. True))
          @ (frame (CopyData pg_codes) [1, 2] @ take 3 (frame (CopyData pg_codes) [3]))\<rparr>)
   \<and> (\<exists>r. parse pg_codes (frame (CopyData pg_codes) [1, 2] @ take 3 (frame (CopyData pg_codes) [3]))
          (copy_both_init False (\<lambda>n. True) (\<lambda>n. True)) = Some r)"
proof -
  have h: "pending_ok ((copy_both_init False (\<lambda>n. True) (\<lambda>n. True))
      \<lparr>buffer := buffer (copy_both_init False (\<lambda>n. True) (\<lambda>n. True))
          @ (frame (CopyData pg_codes) [1, 2] @ take 3 (frame (CopyData pg_codes) [3]))\<rparr>)"
    by code_simp
  from h parse_terminates[OF h] show ?thesis by blast
qed

end
